theory Spec2Isabelle
  imports Main
begin

section \<open>Package tplx: a renderer over html/template\<close>

text \<open>
  The package has two operations: \<open>NewRenderer\<close> assembles one template set per
  top-level name of a \<open>Spec\<close>, and \<open>Render\<close> looks a name up and executes it.
  Both delegate to the standard library package html/template, which is not part of
  the repository. The part of that library the package calls is modelled first, with
  the parser and the executor of template bodies left as parameters.
\<close>

subsection \<open>Errors\<close>

text \<open>
  \<open>ErrUnknownTemplate\<close> and \<open>ErrInvalidSpec\<close> are the two sentinel values of the
  package. \<open>Foreign e\<close> is an error value \<open>e\<close> produced by the file system or by
  the template library, handed on as it is. \<open>Errorf ctx err\<close> is
  \<^verbatim>\<open>fmt.Errorf(ctx + ": %w", err)\<close>: the error \<open>err\<close> wrapped with the context
  \<open>ctx\<close>.
\<close>

datatype 'e error =
    ErrUnknownTemplate
  | ErrInvalidSpec
  | Foreign 'e
  | Errorf string "'e error"

subsection \<open>The template library, as far as the package uses it\<close>

text \<open>
  \<^verbatim>\<open>template.FuncMap\<close> is a map from function names to functions. The type \<open>'f\<close>
  stands for the functions the library accepts, under names it accepts: \<^verbatim>\<open>Funcs\<close>
  panics on any other entry, and such maps are not considered.
\<close>

type_synonym 'f FuncMap = "string \<rightharpoonup> 'f"

text \<open>
  A \<^verbatim>\<open>*template.Template\<close> is a handle: its own name, and the set of associated
  templates it belongs to. The set holds one function map and one name space, both common
  to every template associated with it. \<open>NewRenderer\<close> keeps a single handle per
  set (the variable \<^verbatim>\<open>t\<close> is reassigned at every step), so the handle and the set
  are one value here.
\<close>

record ('f, 't) Template =
  tname :: string
  funcs :: "'f FuncMap"
  tmpl :: "string \<rightharpoonup> 't"

text \<open>
  The parameters of the library model.
  \<^item> \<open>parse name text fm\<close> parses \<open>text\<close> as the body of the template \<open>name\<close>,
    with the functions of \<open>fm\<close> declared. It fails with the library's error, or gives
    the trees the text defines: its own body under \<open>name\<close> and one tree per
    \<^verbatim>\<open>{{define}}\<close> block.
  \<^item> \<open>IsEmptyTree\<close> holds for a body of white space and comments only.
  \<^item> \<open>execute fm ts tree data wr\<close> runs a tree on \<open>data\<close>, with the functions
    \<open>fm\<close> and the name space \<open>ts\<close> in scope for calls and \<^verbatim>\<open>{{template}}\<close>
    actions. It writes to the sink \<open>wr\<close> as it goes and returns the sink afterwards,
    with the error that stopped it, if any. html/template escapes a set for its
    context before the first execution and keeps the result inside the template
    objects; the calls of the package cannot observe this, and it is part of this step:
    an execution is a function of the set, the data and the sink.
  \<^item> \<open>undefined_template name\<close> is the library's error for a name without a
    definition.
\<close>

record ('f, 't, 'd, 'w, 'e) engine =
  parse :: "string \<Rightarrow> string \<Rightarrow> 'f FuncMap \<Rightarrow> 'e + (string \<rightharpoonup> 't)"
  IsEmptyTree :: "'t \<Rightarrow> bool"
  execute :: "'f FuncMap \<Rightarrow> (string \<rightharpoonup> 't) \<Rightarrow> 't \<Rightarrow> 'd \<Rightarrow> 'w \<Rightarrow> 'w \<times> 'e option"
  undefined_template :: "string \<Rightarrow> 'e"

text \<open>\<^verbatim>\<open>template.New(name)\<close>: a new set without functions and definitions.\<close>

definition template_New :: "string \<Rightarrow> ('f, 't) Template" where
  "template_New name = \<lparr>tname = name, funcs = Map.empty, tmpl = Map.empty\<rparr>"

text \<open>
  \<^verbatim>\<open>t.Funcs(fm)\<close> adds the elements of \<open>fm\<close> to the function map of the set; an
  entry of \<open>fm\<close> replaces an entry of the same name.
\<close>

definition Template_Funcs :: "('f, 't) Template \<Rightarrow> 'f FuncMap \<Rightarrow> ('f, 't) Template" where
  "Template_Funcs t fm = t\<lparr>funcs := funcs t ++ fm\<rparr>"

text \<open>
  \<^verbatim>\<open>t.New(name)\<close>: a handle for the name \<open>name\<close> in the set of \<open>t\<close>. The name
  gets its definition from the next \<^verbatim>\<open>Parse\<close>.
\<close>

definition Template_New :: "('f, 't) Template \<Rightarrow> string \<Rightarrow> ('f, 't) Template" where
  "Template_New t name = t\<lparr>tname := name\<rparr>"

text \<open>
  Adding one parsed tree to the name space. The library's rule, from the documentation
  of \<^verbatim>\<open>Parse\<close>: templates can be redefined in successive calls, but a definition
  with a body of white space and comments only is empty and does not replace an existing
  one. The name space is the one of the set, so the rule applies across the handles
  that \<^verbatim>\<open>t.New\<close> returns for one name.
\<close>

definition associate ::
  "('f, 't, 'd, 'w, 'e) engine \<Rightarrow> 't option \<Rightarrow> 't option \<Rightarrow> 't option" where
  "associate eng old new =
     (case new of
        None \<Rightarrow> old
      | Some tree \<Rightarrow>
          (case old of
             None \<Rightarrow> Some tree
           | Some body \<Rightarrow> if IsEmptyTree eng tree then Some body else Some tree))"

text \<open>\<^verbatim>\<open>t.Parse(text)\<close>: parse, then add every tree of the text to the set.\<close>

definition Template_Parse ::
  "('f, 't, 'd, 'w, 'e) engine \<Rightarrow> ('f, 't) Template \<Rightarrow> string \<Rightarrow> 'e + ('f, 't) Template" where
  "Template_Parse eng t text =
     (case parse eng (tname t) text (funcs t) of
        Inl err \<Rightarrow> Inl err
      | Inr trees \<Rightarrow> Inr (t\<lparr>tmpl := (\<lambda>n. associate eng (tmpl t n) (trees n))\<rparr>))"

text \<open>
  \<^verbatim>\<open>t.ExecuteTemplate(wr, name, data)\<close>: execute the template \<open>name\<close> of the set
  of \<open>t\<close>. Nothing is written when the name has no definition.
\<close>

definition Template_ExecuteTemplate ::
  "('f, 't, 'd, 'w, 'e) engine \<Rightarrow> ('f, 't) Template \<Rightarrow> 'w \<Rightarrow> string \<Rightarrow> 'd \<Rightarrow> 'w \<times> 'e option" where
  "Template_ExecuteTemplate eng t wr name data =
     (case tmpl t name of
        None \<Rightarrow> (wr, Some (undefined_template eng name))
      | Some tree \<Rightarrow> execute eng (funcs t) (tmpl t) tree data wr)"

subsection \<open>The data of the package\<close>

text \<open>\<^verbatim>\<open>type Meta struct { Name string; Path string; Funcs template.FuncMap }\<close>\<close>

record 'f Meta =
  Name :: string
  Path :: string
  Funcs :: "'f FuncMap"

text \<open>
  \<^verbatim>\<open>type Spec map[string][]Meta\<close>. A Go map is iterated in an order the language
  does not fix, so a \<open>Spec\<close> is the list of its entries in the order in which
  \<^verbatim>\<open>range spec\<close> visits them. The keys of a map are distinct: theorems that depend
  on it assume \<open>distinct (map fst spec)\<close>.
\<close>

type_synonym 'f Spec = "(string \<times> 'f Meta list) list"

text \<open>\<^verbatim>\<open>type renderer struct { m map[string]*template.Template }\<close>\<close>

record ('f, 't) renderer =
  m :: "string \<rightharpoonup> ('f, 't) Template"

text \<open>
  \<^verbatim>\<open>fs.FS\<close> through \<^verbatim>\<open>fs.ReadFile\<close>: the contents of the file at a path, or
  the error of the file system.
\<close>

type_synonym 'e FS = "string \<Rightarrow> 'e + string"

subsection \<open>NewRenderer\<close>

text \<open>
  The inner loop, \<^verbatim>\<open>for _, meta := range metas\<close>, on the loop state \<open>(inc, t)\<close>.
  A read error is wrapped with \<^verbatim>\<open>fmt.Errorf\<close>; the error of \<^verbatim>\<open>Parse\<close> is
  returned as it is.
\<close>

fun NewRenderer_metas ::
  "('f, 't, 'd, 'w, 'e) engine \<Rightarrow> 'e FS \<Rightarrow> string \<Rightarrow> bool \<times> ('f, 't) Template \<Rightarrow>
   'f Meta list \<Rightarrow> 'e error + (bool \<times> ('f, 't) Template)" where
  "NewRenderer_metas eng fsys name (inc, t) [] = Inr (inc, t)"
| "NewRenderer_metas eng fsys name (inc, t) (meta # metas) =
     (let inc' = (if Name meta = name then True else inc) in
      case fsys (Path meta) of
        Inl err \<Rightarrow> Inl (Errorf ''unable to read template file'' (Foreign err))
      | Inr text \<Rightarrow>
          (case Template_Parse eng (Template_Funcs (Template_New t (Name meta)) (Funcs meta)) text of
             Inl err \<Rightarrow> Inl (Foreign err)
           | Inr t' \<Rightarrow> NewRenderer_metas eng fsys name (inc', t') metas))"

text \<open>The outer loop, \<^verbatim>\<open>for name, metas := range spec\<close>, on the renderer \<open>r\<close>.\<close>

fun NewRenderer_spec ::
  "('f, 't, 'd, 'w, 'e) engine \<Rightarrow> 'e FS \<Rightarrow> 'f FuncMap \<Rightarrow> ('f, 't) renderer \<Rightarrow>
   'f Spec \<Rightarrow> 'e error + ('f, 't) renderer" where
  "NewRenderer_spec eng fsys fm r [] = Inr r"
| "NewRenderer_spec eng fsys fm r ((name, metas) # spec) =
     (case NewRenderer_metas eng fsys name (False, Template_Funcs (template_New name) fm) metas of
        Inl err \<Rightarrow> Inl err
      | Inr (inc, t) \<Rightarrow>
          if \<not> inc then Inl ErrInvalidSpec
          else NewRenderer_spec eng fsys fm (r\<lparr>m := (m r)(name \<mapsto> t)\<rparr>) spec)"

definition NewRenderer ::
  "('f, 't, 'd, 'w, 'e) engine \<Rightarrow> 'e FS \<Rightarrow> 'f Spec \<Rightarrow> 'f FuncMap \<Rightarrow>
   'e error + ('f, 't) renderer" where
  "NewRenderer eng fsys spec fm = NewRenderer_spec eng fsys fm \<lparr>m = Map.empty\<rparr> spec"

subsection \<open>Render\<close>

text \<open>
  \<open>Render\<close> gets the receiver, a sink and the arguments of the call. It returns the
  receiver, the sink after the call and the error, so that what a call does to the
  renderer and to the sink can be stated. The argument \<open>fm\<close> is the parameter
  \<^verbatim>\<open>funcs\<close> of the source, which the body never mentions.
\<close>

definition Render ::
  "('f, 't, 'd, 'w, 'e) engine \<Rightarrow> ('f, 't) renderer \<Rightarrow> 'w \<Rightarrow> string \<Rightarrow> 'd \<Rightarrow> 'f FuncMap \<Rightarrow>
   ('f, 't) renderer \<times> 'w \<times> 'e error option" where
  "Render eng r wr name data fm =
     (case m r name of
        None \<Rightarrow> (r, wr, Some ErrUnknownTemplate)
      | Some t \<Rightarrow>
          (case Template_ExecuteTemplate eng t wr name data of
             (wr', Some err) \<Rightarrow> (r, wr', Some (Errorf ''cannot render template'' (Foreign err)))
           | (wr', None) \<Rightarrow> (r, wr', None)))"

text \<open>A sequence of calls on one renderer and one sink, each a name, a data value and
  a function map; the errors of the calls are collected in order.\<close>

fun Render_calls ::
  "('f, 't, 'd, 'w, 'e) engine \<Rightarrow> ('f, 't) renderer \<Rightarrow> 'w \<Rightarrow> (string \<times> 'd \<times> 'f FuncMap) list \<Rightarrow>
   ('f, 't) renderer \<times> 'w \<times> 'e error option list" where
  "Render_calls eng r wr [] = (r, wr, [])"
| "Render_calls eng r wr ((name, data, fm) # calls) =
     (case Render eng r wr name data fm of
        (r', wr', res) \<Rightarrow>
          (case Render_calls eng r' wr' calls of
             (r'', wr'', ress) \<Rightarrow> (r'', wr'', res # ress)))"

text \<open>Building a renderer and rendering one name with it, for concrete inputs.\<close>

definition build_then_render ::
  "('f, 't, 'd, 'w, 'e) engine \<Rightarrow> 'e FS \<Rightarrow> 'f Spec \<Rightarrow> 'f FuncMap \<Rightarrow> 'w \<Rightarrow> string \<Rightarrow> 'd \<Rightarrow>
   'f FuncMap \<Rightarrow> 'w \<times> 'e error option" where
  "build_then_render eng fsys spec fm wr name data fm' =
     (case NewRenderer eng fsys spec fm of
        Inl err \<Rightarrow> (wr, Some err)
      | Inr r \<Rightarrow> snd (Render eng r wr name data fm'))"

subsection \<open>Notions of the specification\<close>

text \<open>
  "Every listed path is readable and parses": the fragments are read and parsed in
  sequence, each text with the functions declared up to and including its own, so the
  predicate follows the set from fragment to fragment.
\<close>

fun readable_and_parses ::
  "('f, 't, 'd, 'w, 'e) engine \<Rightarrow> 'e FS \<Rightarrow> ('f, 't) Template \<Rightarrow> 'f Meta list \<Rightarrow> bool" where
  "readable_and_parses eng fsys t [] = True"
| "readable_and_parses eng fsys t (meta # metas) =
     (case fsys (Path meta) of
        Inl err \<Rightarrow> False
      | Inr text \<Rightarrow>
          (case Template_Parse eng (Template_Funcs (Template_New t (Name meta)) (Funcs meta)) text of
             Inl err \<Rightarrow> False
           | Inr t' \<Rightarrow> readable_and_parses eng fsys t' metas))"

text \<open>
  "Directly invoking the underlying engine on the equivalent merged template set": the
  fragments of a composite, each a name, a function map and the text of its file, are
  added to one set by the library's own calls, and the entry point is executed. No
  renderer, no flag and no wrapped error is involved.
\<close>

fun read_fragments ::
  "'e FS \<Rightarrow> 'f Meta list \<Rightarrow> (string \<times> 'f FuncMap \<times> string) list option" where
  "read_fragments fsys [] = Some []"
| "read_fragments fsys (meta # metas) =
     (case fsys (Path meta) of
        Inl err \<Rightarrow> None
      | Inr text \<Rightarrow>
          (case read_fragments fsys metas of
             None \<Rightarrow> None
           | Some frags \<Rightarrow> Some ((Name meta, Funcs meta, text) # frags)))"

fun merged_set ::
  "('f, 't, 'd, 'w, 'e) engine \<Rightarrow> ('f, 't) Template \<Rightarrow> (string \<times> 'f FuncMap \<times> string) list \<Rightarrow>
   'e + ('f, 't) Template" where
  "merged_set eng t [] = Inr t"
| "merged_set eng t ((n, fm, text) # frags) =
     (case Template_Parse eng (Template_Funcs (Template_New t n) fm) text of
        Inl err \<Rightarrow> Inl err
      | Inr t' \<Rightarrow> merged_set eng t' frags)"

definition engine_directly ::
  "('f, 't, 'd, 'w, 'e) engine \<Rightarrow> 'f FuncMap \<Rightarrow> string \<Rightarrow> (string \<times> 'f FuncMap \<times> string) list \<Rightarrow>
   'w \<Rightarrow> 'd \<Rightarrow> 'e + ('w \<times> 'e option)" where
  "engine_directly eng fm name frags wr data =
     (case merged_set eng (Template_Funcs (template_New name) fm) frags of
        Inl err \<Rightarrow> Inl err
      | Inr t \<Rightarrow> Inr (Template_ExecuteTemplate eng t wr name data))"

text \<open>
  The trees the texts of a fragment list are parsed to, in sequence order, up to the
  first fragment that cannot be read or parsed; and the definitions they hold for one
  name.
\<close>

fun parsed_trees ::
  "('f, 't, 'd, 'w, 'e) engine \<Rightarrow> 'e FS \<Rightarrow> ('f, 't) Template \<Rightarrow> 'f Meta list \<Rightarrow>
   (string \<rightharpoonup> 't) list" where
  "parsed_trees eng fsys t [] = []"
| "parsed_trees eng fsys t (meta # metas) =
     (case fsys (Path meta) of
        Inl err \<Rightarrow> []
      | Inr text \<Rightarrow>
          (case parse eng (Name meta) text (funcs t ++ Funcs meta) of
             Inl err \<Rightarrow> []
           | Inr trees \<Rightarrow>
               trees # parsed_trees eng fsys
                 (t\<lparr>tname := Name meta, funcs := funcs t ++ Funcs meta,
                    tmpl := (\<lambda>n. associate eng (tmpl t n) (trees n))\<rparr>) metas))"

definition definitions ::
  "('f, 't, 'd, 'w, 'e) engine \<Rightarrow> 'e FS \<Rightarrow> ('f, 't) Template \<Rightarrow> 'f Meta list \<Rightarrow> string \<Rightarrow>
   't list" where
  "definitions eng fsys t metas n = List.map_filter (\<lambda>trees. trees n) (parsed_trees eng fsys t metas)"

text \<open>
  The definition in force after a sequence of definitions of one name: the last one
  with a body that is not empty, and the first one when all bodies are empty.
\<close>

definition final_definition :: "('f, 't, 'd, 'w, 'e) engine \<Rightarrow> 't list \<Rightarrow> 't option" where
  "final_definition eng ds =
     (case filter (\<lambda>d. \<not> IsEmptyTree eng d) ds of
        [] \<Rightarrow> (case ds of [] \<Rightarrow> None | d # ds' \<Rightarrow> Some d)
      | d # ds' \<Rightarrow> Some (last (d # ds')))"

text \<open>
  The entry of a function map list that is in force for one name: the last map in
  sequence order that defines it.
\<close>

definition in_force :: "'f FuncMap list \<Rightarrow> string \<Rightarrow> 'f option" where
  "in_force fms x =
     (let gs = filter (\<lambda>g. g x \<noteq> None) fms in if gs = [] then None else last gs x)"

subsection \<open>A small engine and file system for concrete inputs\<close>

text \<open>
  An in-memory file system: the files are an association list from paths to contents.
\<close>

definition files_FS :: "(string \<times> string) list \<Rightarrow> string FS" where
  "files_FS files path =
     (case map_of files path of
        None \<Rightarrow> Inl ''file does not exist''
      | Some text \<Rightarrow> Inr text)"

text \<open>
  An instance of the parameters, to evaluate the model on concrete inputs. It knows
  three kinds of text and treats each as html/template does: \<^verbatim>\<open>{{greet .}}\<close> calls
  the function \<^verbatim>\<open>greet\<close> on the data and needs it declared when parsed;
  \<^verbatim>\<open>{{\<close> is an unclosed action, a syntax error; a text without an action (every
  other text used below) is written as it is, and is an empty body when it holds blanks
  only. The data is a string, the sink is the string written so far, and a function is
  given by the text it puts before its argument.
\<close>

datatype tree = Text string | Call string

definition mini_parse :: "string \<Rightarrow> string \<Rightarrow> string FuncMap \<Rightarrow> string + (string \<rightharpoonup> tree)" where
  "mini_parse name text fm =
     (if text = ''{{'' then Inl ''unclosed action''
      else if text = ''{{greet .}}'' then
        (case fm ''greet'' of
           None \<Rightarrow> Inl ''function greet not defined''
         | Some f \<Rightarrow> Inr [name \<mapsto> Call ''greet''])
      else Inr [name \<mapsto> Text text])"

fun mini_empty :: "tree \<Rightarrow> bool" where
  "mini_empty (Text s) = (filter (\<lambda>c. c \<noteq> CHR '' '') s = [])"
| "mini_empty (Call f) = False"

fun mini_execute ::
  "string FuncMap \<Rightarrow> (string \<rightharpoonup> tree) \<Rightarrow> tree \<Rightarrow> string \<Rightarrow> string \<Rightarrow> string \<times> string option" where
  "mini_execute fm ts (Text s) data wr = (wr @ s, None)"
| "mini_execute fm ts (Call f) data wr =
     (case fm f of
        None \<Rightarrow> (wr, Some ''function not found'')
      | Some g \<Rightarrow> (wr @ g @ data, None))"

definition mini :: "(string, tree, string, string, string) engine" where
  "mini = \<lparr>parse = mini_parse, IsEmptyTree = mini_empty, execute = mini_execute,
           undefined_template = (\<lambda>name. ''no such template'')\<rparr>"

section \<open>Properties of the library model and of the two loops\<close>

lemmas engine_simps = Template_Parse_def Template_Funcs_def Template_New_def template_New_def
  Template_ExecuteTemplate_def associate_def

lemmas mini_simps = mini_def mini_parse_def files_FS_def

subsection \<open>The set a composite starts from\<close>

lemma funcs_initial: "funcs (Template_Funcs (template_New name) fm) = fm"
  by (simp add: Template_Funcs_def template_New_def)

lemma tmpl_initial: "tmpl (Template_Funcs (template_New name) fm) = Map.empty"
  by (simp add: Template_Funcs_def template_New_def)

subsection \<open>The inner loop\<close>

text \<open>
  The flag is set exactly when a fragment carries the name of the composite; the loop
  fails exactly when a file cannot be read or a text does not parse, and never with
  \<open>ErrInvalidSpec\<close>.
\<close>

lemma metas_inc:
  "NewRenderer_metas eng fsys name (inc, t) metas = Inr (inc', t') \<Longrightarrow>
   inc' = (inc \<or> (\<exists>meta \<in> set metas. Name meta = name))"
  by (induction metas arbitrary: inc t) (auto simp: Let_def split: sum.splits if_splits)

lemma metas_success:
  "(\<exists>res. NewRenderer_metas eng fsys name (inc, t) metas = Inr res) = readable_and_parses eng fsys t metas"
  by (induction metas arbitrary: inc t) (auto simp: Let_def split: sum.splits)

lemma metas_error:
  "NewRenderer_metas eng fsys name (inc, t) metas = Inl err \<Longrightarrow> err \<noteq> ErrInvalidSpec"
  by (induction metas arbitrary: inc t) (auto simp: Let_def split: sum.splits)

lemma metas_error_shape:
  "NewRenderer_metas eng fsys name (inc, t) metas = Inl err \<Longrightarrow>
   \<exists>e. err = Foreign e \<or> err = Errorf ''unable to read template file'' (Foreign e)"
  by (induction metas arbitrary: inc t) (auto simp: Let_def split: sum.splits)

lemma metas_append:
  "NewRenderer_metas eng fsys name (inc, t) (xs @ ys) =
     (case NewRenderer_metas eng fsys name (inc, t) xs of
        Inl err \<Rightarrow> Inl err
      | Inr s \<Rightarrow> NewRenderer_metas eng fsys name s ys)"
  by (induction xs arbitrary: inc t) (auto simp: Let_def split: sum.splits)

text \<open>
  What the loop leaves in the set: the fragments added by the library's own calls, the
  function maps laid over each other in sequence order, and for every name the trees
  associated in sequence order.
\<close>

lemma metas_merged_set:
  "NewRenderer_metas eng fsys name (inc, t) metas = Inr (inc', t') \<Longrightarrow>
   \<exists>frags. read_fragments fsys metas = Some frags \<and> merged_set eng t frags = Inr t'"
proof (induction metas arbitrary: inc t)
  case Nil
  then show ?case by simp
next
  case (Cons meta metas)
  from Cons.prems obtain content t1 inc1 where
    rd: "fsys (Path meta) = Inr content"
    and ps: "Template_Parse eng (Template_Funcs (Template_New t (Name meta)) (Funcs meta)) content = Inr t1"
    and run: "NewRenderer_metas eng fsys name (inc1, t1) metas = Inr (inc', t')"
    by (auto simp: Let_def split: sum.splits)
  from Cons.IH [OF run] obtain frags where
    "read_fragments fsys metas = Some frags" "merged_set eng t1 frags = Inr t'"
    by blast
  with rd ps show ?case by simp
qed

lemma metas_funcs:
  "NewRenderer_metas eng fsys name (inc, t) metas = Inr (inc', t') \<Longrightarrow>
   funcs t' = foldl (++) (funcs t) (map Funcs metas)"
  by (induction metas arbitrary: inc t)
     (auto simp: Let_def Template_Parse_def Template_Funcs_def Template_New_def split: sum.splits)

lemma metas_tmpl:
  "NewRenderer_metas eng fsys name (inc, t) metas = Inr (inc', t') \<Longrightarrow>
   tmpl t' n = foldl (associate eng) (tmpl t n) (map (\<lambda>trees. trees n) (parsed_trees eng fsys t metas))"
  by (induction metas arbitrary: inc t)
     (auto simp: Let_def Template_Parse_def Template_Funcs_def Template_New_def split: sum.splits)

subsection \<open>Function maps and definitions in sequence order\<close>

lemma in_force_snoc:
  "in_force (fms @ [h]) x = (case h x of None \<Rightarrow> in_force fms x | Some v \<Rightarrow> Some v)"
  by (auto simp: in_force_def Let_def split: option.splits)

lemma foldl_map_add_in_force:
  "foldl (++) g fms x = (case in_force fms x of None \<Rightarrow> g x | Some v \<Rightarrow> Some v)"
proof (induction fms rule: rev_induct)
  case Nil
  then show ?case by (simp add: in_force_def)
next
  case (snoc h fms)
  then show ?case by (simp add: in_force_snoc map_add_def split: option.splits)
qed

lemma associate_final_definition:
  "associate eng (final_definition eng ds) (Some d) = final_definition eng (ds @ [d])"
  by (cases ds) (auto simp: associate_def final_definition_def split: list.splits)

lemma foldl_associate:
  "foldl (associate eng) None (map (\<lambda>trees. trees n) ts) =
   final_definition eng (List.map_filter (\<lambda>trees. trees n) ts)"
proof (induction ts rule: rev_induct)
  case Nil
  then show ?case by (simp add: final_definition_def)
next
  case (snoc trees ts)
  show ?case
  proof (cases "trees n")
    case None
    with snoc show ?thesis by (simp add: map_filter_def associate_def)
  next
    case (Some d)
    with snoc show ?thesis by (simp add: map_filter_def associate_final_definition)
  qed
qed

subsection \<open>The outer loop\<close>

lemma spec_append:
  "NewRenderer_spec eng fsys fm r (xs @ ys) =
     (case NewRenderer_spec eng fsys fm r xs of
        Inl err \<Rightarrow> Inl err
      | Inr r' \<Rightarrow> NewRenderer_spec eng fsys fm r' ys)"
  by (induction xs arbitrary: r) (auto split: sum.splits)

lemma spec_dom:
  "NewRenderer_spec eng fsys fm r spec = Inr r' \<Longrightarrow> dom (m r') = dom (m r) \<union> fst ` set spec"
proof (induction spec arbitrary: r)
  case Nil
  then show ?case by simp
next
  case (Cons entry spec)
  obtain name metas where entry: "entry = (name, metas)" by (cases entry)
  from Cons.prems obtain t where
    rest: "NewRenderer_spec eng fsys fm (r\<lparr>m := (m r)(name \<mapsto> t)\<rparr>) spec = Inr r'"
    by (auto simp: entry split: sum.splits if_splits)
  from Cons.IH [OF rest] show ?case by (auto simp: entry)
qed

lemma spec_other:
  "NewRenderer_spec eng fsys fm r spec = Inr r' \<Longrightarrow> name \<notin> fst ` set spec \<Longrightarrow> m r' name = m r name"
proof (induction spec arbitrary: r)
  case Nil
  then show ?case by simp
next
  case (Cons entry spec)
  obtain name' metas' where entry: "entry = (name', metas')" by (cases entry)
  from Cons.prems(1) obtain t where
    rest: "NewRenderer_spec eng fsys fm (r\<lparr>m := (m r)(name' \<mapsto> t)\<rparr>) spec = Inr r'"
    by (auto simp: entry split: sum.splits if_splits)
  from Cons.prems(2) have "name \<notin> fst ` set spec" "name \<noteq> name'" by (auto simp: entry)
  with Cons.IH [OF rest] show ?case by simp
qed

lemma spec_lookup:
  "NewRenderer_spec eng fsys fm r spec = Inr r' \<Longrightarrow> distinct (map fst spec) \<Longrightarrow>
   (name, metas) \<in> set spec \<Longrightarrow>
   \<exists>t. NewRenderer_metas eng fsys name (False, Template_Funcs (template_New name) fm) metas = Inr (True, t)
      \<and> m r' name = Some t"
proof (induction spec arbitrary: r)
  case Nil
  then show ?case by simp
next
  case (Cons entry spec)
  obtain name' metas' where entry: "entry = (name', metas')" by (cases entry)
  from Cons.prems(1) obtain t where
    run: "NewRenderer_metas eng fsys name' (False, Template_Funcs (template_New name') fm) metas' = Inr (True, t)"
    and rest: "NewRenderer_spec eng fsys fm (r\<lparr>m := (m r)(name' \<mapsto> t)\<rparr>) spec = Inr r'"
    by (auto simp: entry split: sum.splits if_splits)
  show ?case
  proof (cases "entry = (name, metas)")
    case True
    with Cons.prems(2) have "name \<notin> fst ` set spec" by (simp add: entry)
    from spec_other [OF rest this] True entry have "m r' name = Some t" by simp
    with run True entry show ?thesis by simp
  next
    case False
    with Cons.prems have "(name, metas) \<in> set spec" "distinct (map fst spec)" by simp_all
    from Cons.IH [OF rest this(2) this(1)] show ?thesis .
  qed
qed

lemma spec_succeeds:
  "\<forall>(name, metas) \<in> set spec. (\<exists>meta \<in> set metas. Name meta = name) \<and>
      readable_and_parses eng fsys (Template_Funcs (template_New name) fm) metas \<Longrightarrow>
   \<exists>r'. NewRenderer_spec eng fsys fm r spec = Inr r'"
proof (induction spec arbitrary: r)
  case Nil
  then show ?case by simp
next
  case (Cons entry spec)
  obtain name metas where entry: "entry = (name, metas)" by (cases entry)
  from Cons.prems have self: "\<exists>meta \<in> set metas. Name meta = name"
    and loads: "readable_and_parses eng fsys (Template_Funcs (template_New name) fm) metas"
    by (auto simp: entry)
  from loads obtain inc t where
    run: "NewRenderer_metas eng fsys name (False, Template_Funcs (template_New name) fm) metas = Inr (inc, t)"
    using metas_success [of eng fsys name False _ metas] by fastforce
  with self have "inc" using metas_inc [OF run] by simp
  moreover from Cons.prems have
    "\<exists>r'. NewRenderer_spec eng fsys fm (r\<lparr>m := (m r)(name \<mapsto> t)\<rparr>) spec = Inr r'"
    by (intro Cons.IH) simp
  ultimately show ?case by (simp add: entry run)
qed

lemma spec_fails:
  "(name, metas) \<in> set spec \<Longrightarrow> \<forall>meta \<in> set metas. Name meta \<noteq> name \<Longrightarrow>
   \<exists>err. NewRenderer_spec eng fsys fm r spec = Inl err"
proof (induction spec arbitrary: r)
  case Nil
  then show ?case by simp
next
  case (Cons entry spec)
  obtain name' metas' where entry: "entry = (name', metas')" by (cases entry)
  show ?case
  proof (cases "NewRenderer_metas eng fsys name' (False, Template_Funcs (template_New name') fm) metas'")
    case (Inl err)
    then show ?thesis by (simp add: entry)
  next
    case (Inr res)
    obtain inc t where res: "res = (inc, t)" by (cases res)
    show ?thesis
    proof (cases "entry = (name, metas)")
      case True
      with Inr res entry Cons.prems(2) have "\<not> inc"
        using metas_inc [of eng fsys name False _ metas inc t] by auto
      then show ?thesis by (simp add: entry Inr res)
    next
      case False
      with Cons.prems have "(name, metas) \<in> set spec" by simp
      from Cons.IH [OF this Cons.prems(2)] show ?thesis
        by (simp add: entry Inr res)
    qed
  qed
qed

lemma spec_error:
  "\<forall>(name, metas) \<in> set spec. readable_and_parses eng fsys (Template_Funcs (template_New name) fm) metas \<Longrightarrow>
   NewRenderer_spec eng fsys fm r spec = Inl err \<Longrightarrow> err = ErrInvalidSpec"
proof (induction spec arbitrary: r)
  case Nil
  then show ?case by simp
next
  case (Cons entry spec)
  obtain name metas where entry: "entry = (name, metas)" by (cases entry)
  from Cons.prems(1) have "readable_and_parses eng fsys (Template_Funcs (template_New name) fm) metas"
    by (simp add: entry)
  then obtain inc t where
    run: "NewRenderer_metas eng fsys name (False, Template_Funcs (template_New name) fm) metas = Inr (inc, t)"
    using metas_success [of eng fsys name False _ metas] by fastforce
  show ?case
  proof (cases inc)
    case True
    with Cons.prems(2) have "NewRenderer_spec eng fsys fm (r\<lparr>m := (m r)(name \<mapsto> t)\<rparr>) spec = Inl err"
      by (simp add: entry run)
    moreover from Cons.prems(1) have
      "\<forall>(name, metas) \<in> set spec. readable_and_parses eng fsys (Template_Funcs (template_New name) fm) metas"
      by simp
    ultimately show ?thesis by (rule Cons.IH [rotated])
  next
    case False
    with Cons.prems(2) show ?thesis by (simp add: entry run)
  qed
qed

lemma spec_error_shape:
  "NewRenderer_spec eng fsys fm r spec = Inl err \<Longrightarrow>
   err = ErrInvalidSpec \<or> (\<exists>e. err = Foreign e \<or> err = Errorf ''unable to read template file'' (Foreign e))"
proof (induction spec arbitrary: r)
  case Nil
  then show ?case by simp
next
  case (Cons entry spec)
  obtain name metas where entry: "entry = (name, metas)" by (cases entry)
  show ?case
  proof (cases "NewRenderer_metas eng fsys name (False, Template_Funcs (template_New name) fm) metas")
    case (Inl err')
    with Cons.prems have "err' = err" by (simp add: entry)
    with Inl metas_error_shape show ?thesis by fast
  next
    case (Inr res)
    obtain inc t where res: "res = (inc, t)" by (cases res)
    show ?thesis
    proof (cases inc)
      case True
      with Cons.prems Inr res entry
      have "NewRenderer_spec eng fsys fm (r\<lparr>m := (m r)(name \<mapsto> t)\<rparr>) spec = Inl err" by simp
      then show ?thesis by (rule Cons.IH)
    next
      case False
      with Cons.prems Inr res entry show ?thesis by simp
    qed
  qed
qed

text \<open>
  An error of the outer loop other than \<open>ErrInvalidSpec\<close> is the error with which
  the inner loop stopped on one of the composites.
\<close>

lemma spec_error_origin:
  "NewRenderer_spec eng fsys fm r spec = Inl err \<Longrightarrow>
   err = ErrInvalidSpec \<or>
   (\<exists>(n, ms) \<in> set spec.
      NewRenderer_metas eng fsys n (False, Template_Funcs (template_New n) fm) ms = Inl err)"
proof (induction spec arbitrary: r)
  case Nil
  then show ?case by simp
next
  case (Cons entry spec)
  obtain name metas where entry: "entry = (name, metas)" by (cases entry)
  show ?case
  proof (cases "NewRenderer_metas eng fsys name (False, Template_Funcs (template_New name) fm) metas")
    case (Inl err')
    with Cons.prems have "err' = err" by (simp add: entry)
    with Inl show ?thesis by (simp add: entry)
  next
    case (Inr res)
    obtain inc t where res: "res = (inc, t)" by (cases res)
    show ?thesis
    proof (cases inc)
      case True
      with Cons.prems Inr res entry
      have "NewRenderer_spec eng fsys fm (r\<lparr>m := (m r)(name \<mapsto> t)\<rparr>) spec = Inl err" by simp
      from Cons.IH [OF this] show ?thesis by auto
    next
      case False
      with Cons.prems Inr res entry show ?thesis by simp
    qed
  qed
qed

subsection \<open>Render\<close>

lemma Render_unknown:
  "m r name = None \<Longrightarrow> Render eng r wr name data fm = (r, wr, Some ErrUnknownTemplate)"
  by (simp add: Render_def)

lemma Render_renderer: "fst (Render eng r wr name data fm) = r"
  by (simp add: Render_def split: option.splits prod.splits)

lemma Render_known:
  "m r name = Some t \<Longrightarrow>
   Render eng r wr name data fm =
     (case Template_ExecuteTemplate eng t wr name data of
        (wr', res) \<Rightarrow> (r, wr', map_option (\<lambda>e. Errorf ''cannot render template'' (Foreign e)) res))"
  by (simp add: Render_def split: prod.splits option.splits)

lemma Render_funcs_unused: "Render eng r wr name data fm = Render eng r wr name data fm'"
  by (simp add: Render_def)

subsection \<open>The two error paths of the inner loop\<close>

lemma NewRenderer_read_error:
  "fsys (Path meta) = Inl e \<Longrightarrow>
   NewRenderer eng fsys ((name, meta # metas) # spec) fm = Inl (Errorf ''unable to read template file'' (Foreign e))"
  by (simp add: NewRenderer_def engine_simps)

lemma NewRenderer_parse_error:
  "fsys (Path meta) = Inr content \<Longrightarrow> parse eng (Name meta) content (fm ++ Funcs meta) = Inl e \<Longrightarrow>
   NewRenderer eng fsys ((name, meta # metas) # spec) fm = Inl (Foreign e)"
  by (simp add: NewRenderer_def engine_simps)

section \<open>The claims of the specification\<close>

subsection \<open>C1: the functions given to Render\<close>

text \<open>
  Claim C1 says that the functions supplied to a render call are visible to the template
  during that call. The comment of \<open>Render\<close> in the source says the same
  ("the funcs parameter provides additional template functions"), but the body never
  uses the parameter (lemma \<open>Render_funcs_unused\<close>). At the input below the
  renderer is built with \<^verbatim>\<open>greet\<close> putting "Hello, " before its argument, and
  the call supplies a \<^verbatim>\<open>greet\<close> that puts "Bye, ": the template is executed
  with the function given at construction.
\<close>

theorem Render_extra_funcs_not_used:
  "build_then_render mini (files_FS [(''page.tmpl'', ''{{greet .}}'')])
     [(''page'', [\<lparr>Name = ''page'', Path = ''page.tmpl'', Funcs = Map.empty\<rparr>])]
     [''greet'' \<mapsto> ''Hello, ''] [] ''page'' ''World'' [''greet'' \<mapsto> ''Bye, '']
   = (''Hello, World'', None)"
  by (simp add: build_then_render_def NewRenderer_def Render_def engine_simps mini_simps)

subsection \<open>C2: the error of a fragment that does not parse\<close>

text \<open>
  Claim C2 says that every error of \<open>NewRenderer\<close> wraps its cause with added
  context, the parse error in particular. A read error is wrapped
  (lemma \<open>NewRenderer_read_error\<close>), and so is the error of an execution in
  \<open>Render\<close>; the error of \<^verbatim>\<open>Parse\<close> is returned as the library made it
  (lemma \<open>NewRenderer_parse_error\<close>). At the input below the file holds an
  unclosed action, and the result is the library's error without any context.
\<close>

theorem NewRenderer_parse_error_not_wrapped:
  "NewRenderer mini (files_FS [(''page.tmpl'', ''{{'')])
     [(''page'', [\<lparr>Name = ''page'', Path = ''page.tmpl'', Funcs = Map.empty\<rparr>])] Map.empty
   = Inl (Foreign ''unclosed action'')"
  by (simp add: NewRenderer_def engine_simps mini_simps)

subsection \<open>C3: a specification with all entry points builds\<close>

text \<open>
  Claim C3: when every composite has a fragment that carries its name, and every
  listed path is readable and parses, \<open>NewRenderer\<close> succeeds and the keys of the
  renderer are exactly the names of the composites.
\<close>

theorem NewRenderer_succeeds:
  assumes "\<forall>(name, metas) \<in> set spec. (\<exists>meta \<in> set metas. Name meta = name) \<and>
      readable_and_parses eng fsys (Template_Funcs (template_New name) fm) metas"
  shows "\<exists>r. NewRenderer eng fsys spec fm = Inr r \<and> dom (m r) = fst ` set spec"
proof -
  from spec_succeeds [OF assms] obtain r where
    build: "NewRenderer_spec eng fsys fm \<lparr>m = Map.empty\<rparr> spec = Inr r" by blast
  from spec_dom [OF build] have "dom (m r) = fst ` set spec" by simp
  with build show ?thesis by (simp add: NewRenderer_def)
qed

text \<open>
  The composite of the specification's first example, \<^verbatim>\<open>page\<close> with the
  fragments \<^verbatim>\<open>page\<close> and \<^verbatim>\<open>header\<close>, with plain texts in the two files.
\<close>

theorem NewRenderer_succeeds_witness:
  "\<exists>r. NewRenderer mini (files_FS [(''page.tmpl'', ''Hello ''), (''header.tmpl'', ''top'')])
     [(''page'', [\<lparr>Name = ''page'', Path = ''page.tmpl'', Funcs = Map.empty\<rparr>,
                  \<lparr>Name = ''header'', Path = ''header.tmpl'', Funcs = Map.empty\<rparr>])] Map.empty = Inr r
     \<and> dom (m r) = {''page''}"
  using NewRenderer_succeeds [of
     "[(''page'', [\<lparr>Name = ''page'', Path = ''page.tmpl'', Funcs = Map.empty\<rparr>,
                  \<lparr>Name = ''header'', Path = ''header.tmpl'', Funcs = Map.empty\<rparr>])]"
     mini "files_FS [(''page.tmpl'', ''Hello ''), (''header.tmpl'', ''top'')]" Map.empty]
  by (simp add: engine_simps mini_simps)

subsection \<open>C4: a composite without its entry point\<close>

text \<open>
  Claim C4 says that a specification with a composite that has no fragment of its own
  name fails with \<open>ErrInvalidSpec\<close>. The flag is tested after the fragments of the
  composite have been read and parsed, so a file that cannot be read is reported first:
  here the composite \<^verbatim>\<open>page\<close> has no fragment named \<^verbatim>\<open>page\<close>, its only
  file does not exist, and the result is the wrapped read error.
\<close>

theorem NewRenderer_no_entry_point_counterexample:
  "NewRenderer mini (files_FS [])
     [(''page'', [\<lparr>Name = ''header'', Path = ''header.tmpl'', Funcs = Map.empty\<rparr>])] Map.empty
   = Inl (Errorf ''unable to read template file'' (Foreign ''file does not exist''))
   \<and> NewRenderer mini (files_FS [])
     [(''page'', [\<lparr>Name = ''header'', Path = ''header.tmpl'', Funcs = Map.empty\<rparr>])] Map.empty
   \<noteq> Inl ErrInvalidSpec"
  by (simp add: NewRenderer_def engine_simps mini_simps)

text \<open>
  Claim C4 as amended: such a specification never builds. The error is
  \<open>ErrInvalidSpec\<close> or the error of a read or a parse met before the test, and it is
  \<open>ErrInvalidSpec\<close> when every listed path is readable and parses.
\<close>

theorem NewRenderer_no_entry_point:
  assumes "(name, metas) \<in> set spec" and "\<forall>meta \<in> set metas. Name meta \<noteq> name"
  shows "\<exists>err. NewRenderer eng fsys spec fm = Inl err \<and>
     (err = ErrInvalidSpec \<or> (\<exists>e. err = Foreign e \<or> err = Errorf ''unable to read template file'' (Foreign e))) \<and>
     ((\<forall>(n, ms) \<in> set spec. readable_and_parses eng fsys (Template_Funcs (template_New n) fm) ms)
        \<longrightarrow> err = ErrInvalidSpec)"
proof -
  from spec_fails [OF assms] obtain err where
    fails: "NewRenderer_spec eng fsys fm \<lparr>m = Map.empty\<rparr> spec = Inl err" by blast
  have "err = ErrInvalidSpec"
    if "\<forall>(n, ms) \<in> set spec. readable_and_parses eng fsys (Template_Funcs (template_New n) fm) ms"
    using spec_error [OF that fails] .
  with fails spec_error_shape [OF fails] show ?thesis by (simp add: NewRenderer_def)
qed

text \<open>
  The specification's second example: the composite \<^verbatim>\<open>page\<close> with the single
  fragment \<^verbatim>\<open>header\<close>, whose file exists.
\<close>

theorem NewRenderer_no_entry_point_witness:
  "NewRenderer mini (files_FS [(''header.tmpl'', ''top'')])
     [(''page'', [\<lparr>Name = ''header'', Path = ''header.tmpl'', Funcs = Map.empty\<rparr>])] Map.empty
   = Inl ErrInvalidSpec"
  using NewRenderer_no_entry_point [of "''page''"
     "[\<lparr>Name = ''header'', Path = ''header.tmpl'', Funcs = Map.empty\<rparr>]"
     "[(''page'', [\<lparr>Name = ''header'', Path = ''header.tmpl'', Funcs = Map.empty\<rparr>])]"
     mini "files_FS [(''header.tmpl'', ''top'')]" Map.empty]
  by (auto simp: engine_simps mini_simps)

subsection \<open>C5: rendering an unknown name\<close>

text \<open>
  Claim C5: on a renderer that \<open>NewRenderer\<close> returned, rendering a name that is
  not a key gives \<open>ErrUnknownTemplate\<close>, and the sink is returned as it was given:
  nothing is written to it.
\<close>

theorem Render_unknown_template:
  assumes "NewRenderer eng fsys spec fm = Inr r" and "name \<notin> dom (m r)"
  shows "Render eng r wr name data fm' = (r, wr, Some ErrUnknownTemplate)"
  using assms(2) by (simp add: Render_unknown domIff)

text \<open>
  A sink that already holds some bytes holds the same bytes after the call.
\<close>

theorem Render_unknown_template_witness:
  "build_then_render mini (files_FS [(''page.tmpl'', ''Hello '')])
     [(''page'', [\<lparr>Name = ''page'', Path = ''page.tmpl'', Funcs = Map.empty\<rparr>])] Map.empty
     ''sent before'' ''missing'' ''World'' Map.empty
   = (''sent before'', Some ErrUnknownTemplate)"
proof -
  let ?fs = "files_FS [(''page.tmpl'', ''Hello '')]"
  let ?spec = "[(''page'', [\<lparr>Name = ''page'', Path = ''page.tmpl'', Funcs = (Map.empty :: string FuncMap)\<rparr>])]"
  have "\<exists>r. NewRenderer_spec mini ?fs Map.empty \<lparr>m = Map.empty\<rparr> ?spec = Inr r"
    by (rule spec_succeeds) (simp add: engine_simps mini_simps)
  then obtain r where build: "NewRenderer mini ?fs ?spec Map.empty = Inr r"
    by (auto simp: NewRenderer_def)
  then have "dom (m r) = {''page''}"
    using spec_dom [of mini ?fs Map.empty "\<lparr>m = Map.empty\<rparr>" ?spec r] by (simp add: NewRenderer_def)
  then have "''missing'' \<notin> dom (m r)" by simp
  from Render_unknown_template [OF build this]
  have "Render mini r ''sent before'' ''missing'' ''World'' Map.empty = (r, ''sent before'', Some ErrUnknownTemplate)" .
  with build show ?thesis by (simp add: build_then_render_def)
qed

subsection \<open>C6: functions of a fragment and global functions\<close>

text \<open>
  Claim C6 says that a function a fragment defines takes precedence over a global
  function of the same name for that fragment's parsing and execution. The function map
  belongs to the set, not to the fragment: a later fragment that defines the name again
  replaces the entry for every template of the composite. Here \<^verbatim>\<open>page\<close> defines
  \<^verbatim>\<open>greet\<close> as "Hello, ", the later fragment \<^verbatim>\<open>footer\<close> defines it as
  "Bye, ", and the global map as "Hi, ": executing \<^verbatim>\<open>page\<close> calls the function of
  \<^verbatim>\<open>footer\<close>.
\<close>

theorem fragment_funcs_counterexample:
  "build_then_render mini (files_FS [(''page.tmpl'', ''{{greet .}}''), (''footer.tmpl'', ''--'')])
     [(''page'', [\<lparr>Name = ''page'', Path = ''page.tmpl'', Funcs = [''greet'' \<mapsto> ''Hello, '']\<rparr>,
                  \<lparr>Name = ''footer'', Path = ''footer.tmpl'', Funcs = [''greet'' \<mapsto> ''Bye, '']\<rparr>])]
     [''greet'' \<mapsto> ''Hi, ''] [] ''page'' ''World'' Map.empty
   = (''Bye, World'', None)"
  by (simp add: build_then_render_def NewRenderer_def Render_def engine_simps mini_simps)

text \<open>
  Claim C6 as amended. Let a fragment of a composite define the function \<open>x\<close> as
  \<open>f\<close>. Its text is parsed with a function map in which \<open>x\<close> is \<open>f\<close>, whatever
  the global map and the earlier fragments say. The function map the composite is
  executed with is the global map overlaid with the maps of all fragments in sequence
  order; in it \<open>x\<close> is the definition of the last later fragment that defines
  \<open>x\<close>, and \<open>f\<close> when no later fragment does. The global definition of \<open>x\<close>
  is never the one in force.
\<close>

theorem fragment_funcs_precedence:
  assumes "NewRenderer eng fsys spec fm = Inr r" and "distinct (map fst spec)"
    and "(name, before @ meta # after) \<in> set spec" and "Funcs meta x = Some f"
  shows "\<exists>content trees t.
     fsys (Path meta) = Inr content \<and>
     parse eng (Name meta) content (foldl (++) fm (map Funcs before) ++ Funcs meta) = Inr trees \<and>
     (foldl (++) fm (map Funcs before) ++ Funcs meta) x = Some f \<and>
     m r name = Some t \<and>
     funcs t = foldl (++) fm (map Funcs (before @ meta # after)) \<and>
     funcs t x = (case in_force (map Funcs after) x of None \<Rightarrow> Some f | Some g \<Rightarrow> Some g)"
proof -
  let ?t0 = "Template_Funcs (template_New name) fm"
  from assms(1) have build: "NewRenderer_spec eng fsys fm \<lparr>m = Map.empty\<rparr> spec = Inr r"
    by (simp add: NewRenderer_def)
  from spec_lookup [OF build assms(2,3)] obtain t where
    run: "NewRenderer_metas eng fsys name (False, ?t0) (before @ meta # after) = Inr (True, t)"
    and look: "m r name = Some t" by blast
  from run obtain inc1 t1 where
    run1: "NewRenderer_metas eng fsys name (False, ?t0) before = Inr (inc1, t1)"
    and run2: "NewRenderer_metas eng fsys name (inc1, t1) (meta # after) = Inr (True, t)"
    by (auto simp: metas_append split: sum.splits)
  from run2 obtain content trees where
    rd: "fsys (Path meta) = Inr content"
    and ps: "parse eng (Name meta) content (funcs t1 ++ Funcs meta) = Inr trees"
    by (auto simp: Let_def Template_Parse_def Template_Funcs_def Template_New_def split: sum.splits)
  from metas_funcs [OF run1] have f1: "funcs t1 = foldl (++) fm (map Funcs before)"
    by (simp add: funcs_initial)
  from metas_funcs [OF run] have ft: "funcs t = foldl (++) fm (map Funcs (before @ meta # after))"
    by (simp add: funcs_initial)
  have at_parse: "(foldl (++) fm (map Funcs before) ++ Funcs meta) x = Some f"
    using assms(4) by (simp add: map_add_def)
  have "funcs t x = foldl (++) (foldl (++) fm (map Funcs before) ++ Funcs meta) (map Funcs after) x"
    by (simp add: ft)
  also have "\<dots> = (case in_force (map Funcs after) x of None \<Rightarrow> Some f | Some g \<Rightarrow> Some g)"
    using at_parse by (simp only: foldl_map_add_in_force split: option.splits)
  finally have "funcs t x = (case in_force (map Funcs after) x of None \<Rightarrow> Some f | Some g \<Rightarrow> Some g)" .
  with rd ps f1 at_parse look ft show ?thesis by auto
qed

text \<open>
  The input of the counterexample, at the fragment \<^verbatim>\<open>page\<close>: the function in
  force at execution is the one of \<^verbatim>\<open>footer\<close>.
\<close>

theorem fragment_funcs_precedence_witness:
  "\<exists>r t. NewRenderer mini (files_FS [(''page.tmpl'', ''{{greet .}}''), (''footer.tmpl'', ''--'')])
       [(''page'', [\<lparr>Name = ''page'', Path = ''page.tmpl'', Funcs = [''greet'' \<mapsto> ''Hello, '']\<rparr>,
                    \<lparr>Name = ''footer'', Path = ''footer.tmpl'', Funcs = [''greet'' \<mapsto> ''Bye, '']\<rparr>])]
       [''greet'' \<mapsto> ''Hi, ''] = Inr r
     \<and> m r ''page'' = Some t \<and> funcs t ''greet'' = Some ''Bye, ''"
proof -
  let ?fs = "files_FS [(''page.tmpl'', ''{{greet .}}''), (''footer.tmpl'', ''--'')]"
  let ?page = "\<lparr>Name = ''page'', Path = ''page.tmpl'', Funcs = [''greet'' \<mapsto> ''Hello, '']\<rparr>"
  let ?footer = "\<lparr>Name = ''footer'', Path = ''footer.tmpl'', Funcs = [''greet'' \<mapsto> ''Bye, '']\<rparr>"
  let ?fm = "[''greet'' \<mapsto> ''Hi, '']"
  have "\<exists>r. NewRenderer_spec mini ?fs ?fm \<lparr>m = Map.empty\<rparr> [(''page'', [?page, ?footer])] = Inr r"
    by (rule spec_succeeds) (simp add: engine_simps mini_simps)
  then obtain r where build: "NewRenderer mini ?fs [(''page'', [] @ ?page # [?footer])] ?fm = Inr r"
    by (auto simp: NewRenderer_def)
  have "\<exists>t. m r ''page'' = Some t \<and> funcs t ''greet'' = Some ''Bye, ''"
    using fragment_funcs_precedence [OF build, of "''page''" "[]" ?page "[?footer]" "''greet''" "''Hello, ''"]
    by (auto simp: in_force_def)
  with build show ?thesis by auto
qed

subsection \<open>C7: Render against the library used directly\<close>

text \<open>
  Claim C7: for a renderer that \<open>NewRenderer\<close> returned and a name of the
  specification, the files of the composite are readable, adding them to one set with the
  library's own calls succeeds, and \<open>Render\<close> leaves the sink exactly as executing
  the entry point of that set does. This holds whether or not the execution ends with an
  error; \<open>Render\<close> returns an error exactly when the library does, wrapped.
\<close>

theorem Render_refines_engine:
  assumes "NewRenderer eng fsys spec fm = Inr r" and "distinct (map fst spec)"
    and "(name, metas) \<in> set spec"
  shows "\<exists>frags wr' res. read_fragments fsys metas = Some frags \<and>
     engine_directly eng fm name frags wr data = Inr (wr', res) \<and>
     Render eng r wr name data fm' =
       (r, wr', map_option (\<lambda>e. Errorf ''cannot render template'' (Foreign e)) res)"
proof -
  from assms(1) have build: "NewRenderer_spec eng fsys fm \<lparr>m = Map.empty\<rparr> spec = Inr r"
    by (simp add: NewRenderer_def)
  from spec_lookup [OF build assms(2,3)] obtain t where
    run: "NewRenderer_metas eng fsys name (False, Template_Funcs (template_New name) fm) metas = Inr (True, t)"
    and look: "m r name = Some t" by blast
  from metas_merged_set [OF run] obtain frags where
    frags: "read_fragments fsys metas = Some frags"
    and merged: "merged_set eng (Template_Funcs (template_New name) fm) frags = Inr t" by blast
  obtain wr' res where exec: "Template_ExecuteTemplate eng t wr name data = (wr', res)"
    by (cases "Template_ExecuteTemplate eng t wr name data")
  from merged exec have "engine_directly eng fm name frags wr data = Inr (wr', res)"
    by (simp add: engine_directly_def)
  moreover from look exec have "Render eng r wr name data fm' =
       (r, wr', map_option (\<lambda>e. Errorf ''cannot render template'' (Foreign e)) res)"
    by (simp add: Render_known)
  ultimately show ?thesis using frags by blast
qed

text \<open>
  A composite of two fragments whose entry point calls a global function.
\<close>

theorem Render_refines_engine_witness:
  "\<exists>r. NewRenderer mini (files_FS [(''page.tmpl'', ''{{greet .}}''), (''header.tmpl'', ''top'')])
       [(''page'', [\<lparr>Name = ''page'', Path = ''page.tmpl'', Funcs = Map.empty\<rparr>,
                    \<lparr>Name = ''header'', Path = ''header.tmpl'', Funcs = Map.empty\<rparr>])]
       [''greet'' \<mapsto> ''Hello, ''] = Inr r
     \<and> Render mini r [] ''page'' ''World'' Map.empty = (r, ''Hello, World'', None)"
proof -
  let ?fs = "files_FS [(''page.tmpl'', ''{{greet .}}''), (''header.tmpl'', ''top'')]"
  let ?metas = "[\<lparr>Name = ''page'', Path = ''page.tmpl'', Funcs = (Map.empty :: string FuncMap)\<rparr>,
                    \<lparr>Name = ''header'', Path = ''header.tmpl'', Funcs = Map.empty\<rparr>]"
  let ?fm = "[''greet'' \<mapsto> ''Hello, '']"
  have "\<exists>r. NewRenderer_spec mini ?fs ?fm \<lparr>m = Map.empty\<rparr> [(''page'', ?metas)] = Inr r"
    by (rule spec_succeeds) (simp add: engine_simps mini_simps)
  then obtain r where build: "NewRenderer mini ?fs [(''page'', ?metas)] ?fm = Inr r"
    by (auto simp: NewRenderer_def)
  have "Render mini r [] ''page'' ''World'' Map.empty = (r, ''Hello, World'', None)"
    using Render_refines_engine [OF build, of "''page''" ?metas "[]" "''World''" Map.empty]
    by (auto simp: engine_directly_def engine_simps mini_simps)
  with build show ?thesis by blast
qed

subsection \<open>C8: Render leaves the renderer as it is\<close>

text \<open>
  Claim C8: after any sequence of calls of \<open>Render\<close>, with any names, data and
  function maps, the renderer is the one the sequence started with. It holds for every
  renderer, so for every one \<open>NewRenderer\<close> returns.
\<close>

theorem Render_calls_renderer: "fst (Render_calls eng r wr calls) = r"
proof (induction calls arbitrary: wr)
  case Nil
  then show ?case by simp
next
  case (Cons call calls)
  obtain name data fm where call: "call = (name, data, fm)" by (cases call)
  obtain wr' res where step: "Render eng r wr name data fm = (r, wr', res)"
    using Render_renderer [of eng r wr name data fm] by (cases "Render eng r wr name data fm") auto
  with Cons.IH [of wr'] show ?case by (auto simp: call split: prod.splits)
qed

text \<open>
  Two calls on a renderer that was built, one of them for an unknown name.
\<close>

theorem Render_calls_renderer_witness:
  "\<exists>r. NewRenderer mini (files_FS [(''page.tmpl'', ''Hello '')])
       [(''page'', [\<lparr>Name = ''page'', Path = ''page.tmpl'', Funcs = Map.empty\<rparr>])] Map.empty = Inr r
     \<and> fst (Render_calls mini r [] [(''page'', ''World'', Map.empty), (''missing'', ''World'', Map.empty)]) = r"
proof -
  let ?fs = "files_FS [(''page.tmpl'', ''Hello '')]"
  let ?spec = "[(''page'', [\<lparr>Name = ''page'', Path = ''page.tmpl'', Funcs = (Map.empty :: string FuncMap)\<rparr>])]"
  have "\<exists>r. NewRenderer_spec mini ?fs Map.empty \<lparr>m = Map.empty\<rparr> ?spec = Inr r"
    by (rule spec_succeeds) (simp add: engine_simps mini_simps)
  then obtain r where build: "NewRenderer mini ?fs ?spec Map.empty = Inr r"
    by (auto simp: NewRenderer_def)
  with Render_calls_renderer [of mini r "[]" "[(''page'', ''World'', Map.empty), (''missing'', ''World'', Map.empty)]"]
  show ?thesis by blast
qed

subsection \<open>C9: a composite with an empty fragment list\<close>

text \<open>
  Claim C9 says that a specification with a composite whose fragment list is empty
  fails with \<open>ErrInvalidSpec\<close>. The composites are visited in the order of the
  iteration, and an error of a composite visited earlier is returned first: here
  \<^verbatim>\<open>about\<close> is visited before the empty \<^verbatim>\<open>page\<close>, and its file does not
  exist.
\<close>

theorem NewRenderer_empty_fragment_list_counterexample:
  "NewRenderer mini (files_FS [])
     [(''about'', [\<lparr>Name = ''about'', Path = ''about.tmpl'', Funcs = Map.empty\<rparr>]), (''page'', [])] Map.empty
   = Inl (Errorf ''unable to read template file'' (Foreign ''file does not exist''))
   \<and> NewRenderer mini (files_FS [])
     [(''about'', [\<lparr>Name = ''about'', Path = ''about.tmpl'', Funcs = Map.empty\<rparr>]), (''page'', [])] Map.empty
   \<noteq> Inl ErrInvalidSpec"
  by (simp add: NewRenderer_def engine_simps mini_simps)

text \<open>
  Claim C9 as amended: a specification with a composite whose fragment list is empty
  never builds. The error is \<open>ErrInvalidSpec\<close> when every path of the composites
  visited before that one is readable and parses, in particular when the empty composite
  is visited first. In every case the error is \<open>ErrInvalidSpec\<close>, from the empty
  composite or from an earlier one without its entry point, or it is the read or parse
  error with which the fragments of a composite visited earlier stopped.
\<close>

theorem NewRenderer_empty_fragment_list:
  "\<exists>err. NewRenderer eng fsys (before @ (name, []) # after) fm = Inl err \<and>
     (err = ErrInvalidSpec \<or>
      (\<exists>(n, ms) \<in> set before.
         NewRenderer_metas eng fsys n (False, Template_Funcs (template_New n) fm) ms = Inl err \<and>
         (\<exists>e. err = Foreign e \<or> err = Errorf ''unable to read template file'' (Foreign e)))) \<and>
     ((\<forall>(n, ms) \<in> set before. readable_and_parses eng fsys (Template_Funcs (template_New n) fm) ms)
        \<longrightarrow> err = ErrInvalidSpec)"
proof (cases "NewRenderer_spec eng fsys fm \<lparr>m = Map.empty\<rparr> before")
  case (Inl err)
  have all: "err = ErrInvalidSpec"
    if "\<forall>(n, ms) \<in> set before. readable_and_parses eng fsys (Template_Funcs (template_New n) fm) ms"
    using spec_error [OF that Inl] .
  have origin: "err = ErrInvalidSpec \<or>
      (\<exists>(n, ms) \<in> set before.
         NewRenderer_metas eng fsys n (False, Template_Funcs (template_New n) fm) ms = Inl err \<and>
         (\<exists>e. err = Foreign e \<or> err = Errorf ''unable to read template file'' (Foreign e)))"
    using spec_error_origin [OF Inl] metas_error_shape by fast
  have "NewRenderer eng fsys (before @ (name, []) # after) fm = Inl err"
    using Inl by (simp add: NewRenderer_def spec_append)
  with all origin show ?thesis by blast
next
  case (Inr r)
  then show ?thesis by (simp add: NewRenderer_def spec_append)
qed

text \<open>
  The same specification with the file of \<^verbatim>\<open>about\<close> in place.
\<close>

theorem NewRenderer_empty_fragment_list_witness:
  "NewRenderer mini (files_FS [(''about.tmpl'', ''About us'')])
     [(''about'', [\<lparr>Name = ''about'', Path = ''about.tmpl'', Funcs = Map.empty\<rparr>]), (''page'', [])] Map.empty
   = Inl ErrInvalidSpec"
proof -
  let ?fs = "files_FS [(''about.tmpl'', ''About us'')]"
  let ?before = "[(''about'', [\<lparr>Name = ''about'', Path = ''about.tmpl'', Funcs = (Map.empty :: string FuncMap)\<rparr>])]"
  have loads: "\<forall>(n, ms) \<in> set ?before.
      readable_and_parses mini ?fs (Template_Funcs (template_New n) Map.empty) ms"
    by (simp add: engine_simps mini_simps)
  from NewRenderer_empty_fragment_list [of mini ?fs ?before "''page''" "[]" Map.empty]
  obtain err where "NewRenderer mini ?fs (?before @ [(''page'', [])]) Map.empty = Inl err"
    and "(\<forall>(n, ms) \<in> set ?before.
      readable_and_parses mini ?fs (Template_Funcs (template_New n) Map.empty) ms) \<longrightarrow> err = ErrInvalidSpec"
    by blast
  with loads show ?thesis by simp
qed

subsection \<open>C10: two fragments of the same name\<close>

text \<open>
  Claim C10 says that of two fragments with the same name the later one replaces the
  definition of the earlier one, and the composite renders the last definition in
  sequence order. The library keeps the existing definition when the new body is empty:
  here the second file of \<^verbatim>\<open>page\<close> is empty, and rendering writes the text of the
  first.
\<close>

theorem duplicate_fragment_names_counterexample:
  "build_then_render mini (files_FS [(''first.tmpl'', ''Hello''), (''second.tmpl'', '''')])
     [(''page'', [\<lparr>Name = ''page'', Path = ''first.tmpl'', Funcs = Map.empty\<rparr>,
                  \<lparr>Name = ''page'', Path = ''second.tmpl'', Funcs = Map.empty\<rparr>])]
     Map.empty [] ''page'' ''World'' Map.empty
   = (''Hello'', None)"
  by (simp add: build_then_render_def NewRenderer_def Render_def engine_simps mini_simps)

text \<open>
  Claim C10 as amended. Whether a specification builds does not depend on the names of
  the fragments being distinct: it builds when every composite has its entry point and
  every listed path is readable and parses. In the set stored for a composite, the
  definition of every name is the last one in sequence order whose body is not empty,
  and the first one when all bodies are empty; \<open>Render\<close> executes the entry point
  in that set.
\<close>

theorem duplicate_fragment_names:
  assumes "\<forall>(name, metas) \<in> set spec. (\<exists>meta \<in> set metas. Name meta = name) \<and>
      readable_and_parses eng fsys (Template_Funcs (template_New name) fm) metas"
    and "distinct (map fst spec)"
  shows "\<exists>r. NewRenderer eng fsys spec fm = Inr r \<and>
     (\<forall>(name, metas) \<in> set spec. \<exists>t. m r name = Some t \<and>
        (\<forall>n. tmpl t n =
           final_definition eng (definitions eng fsys (Template_Funcs (template_New name) fm) metas n)) \<and>
        (\<forall>wr data fm'. Render eng r wr name data fm' =
           (case Template_ExecuteTemplate eng t wr name data of
              (wr', res) \<Rightarrow> (r, wr', map_option (\<lambda>e. Errorf ''cannot render template'' (Foreign e)) res))))"
proof -
  from spec_succeeds [OF assms(1)] obtain r where
    build: "NewRenderer_spec eng fsys fm \<lparr>m = Map.empty\<rparr> spec = Inr r" by blast
  have "\<exists>t. m r name = Some t \<and>
        (\<forall>n. tmpl t n =
           final_definition eng (definitions eng fsys (Template_Funcs (template_New name) fm) metas n)) \<and>
        (\<forall>wr data fm'. Render eng r wr name data fm' =
           (case Template_ExecuteTemplate eng t wr name data of
              (wr', res) \<Rightarrow> (r, wr', map_option (\<lambda>e. Errorf ''cannot render template'' (Foreign e)) res)))"
    if entry: "(name, metas) \<in> set spec" for name metas
  proof -
    from spec_lookup [OF build assms(2) entry] obtain t where
      run: "NewRenderer_metas eng fsys name (False, Template_Funcs (template_New name) fm) metas = Inr (True, t)"
      and look: "m r name = Some t" by blast
    have "tmpl t n =
        final_definition eng (definitions eng fsys (Template_Funcs (template_New name) fm) metas n)" for n
      using metas_tmpl [OF run, of n] by (simp add: tmpl_initial foldl_associate definitions_def)
    with look show ?thesis by (simp add: Render_known)
  qed
  with build show ?thesis by (auto simp: NewRenderer_def)
qed

text \<open>
  Two files for \<^verbatim>\<open>page\<close>, both with a body: the second one is rendered.
\<close>

theorem duplicate_fragment_names_witness:
  "\<exists>r t. NewRenderer mini (files_FS [(''first.tmpl'', ''Hello''), (''second.tmpl'', ''Bye'')])
       [(''page'', [\<lparr>Name = ''page'', Path = ''first.tmpl'', Funcs = Map.empty\<rparr>,
                    \<lparr>Name = ''page'', Path = ''second.tmpl'', Funcs = Map.empty\<rparr>])] Map.empty = Inr r
     \<and> m r ''page'' = Some t \<and> tmpl t ''page'' = Some (Text ''Bye'')
     \<and> Render mini r [] ''page'' ''World'' Map.empty = (r, ''Bye'', None)"
proof -
  let ?fs = "files_FS [(''first.tmpl'', ''Hello''), (''second.tmpl'', ''Bye'')]"
  let ?metas = "[\<lparr>Name = ''page'', Path = ''first.tmpl'', Funcs = (Map.empty :: string FuncMap)\<rparr>,
                    \<lparr>Name = ''page'', Path = ''second.tmpl'', Funcs = Map.empty\<rparr>]"
  have defs: "definitions mini ?fs (Template_Funcs (template_New ''page'') Map.empty) ?metas ''page''
      = [Text ''Hello'', Text ''Bye'']"
    by (simp add: definitions_def engine_simps mini_simps)
  from duplicate_fragment_names [of "[(''page'', ?metas)]" mini ?fs Map.empty]
  obtain r t where "NewRenderer mini ?fs [(''page'', ?metas)] Map.empty = Inr r"
    and "m r ''page'' = Some t"
    and "\<forall>n. tmpl t n =
           final_definition mini (definitions mini ?fs (Template_Funcs (template_New ''page'') Map.empty) ?metas n)"
    and "\<forall>wr data fm'. Render mini r wr ''page'' data fm' =
           (case Template_ExecuteTemplate mini t wr ''page'' data of
              (wr', res) \<Rightarrow> (r, wr', map_option (\<lambda>e. Errorf ''cannot render template'' (Foreign e)) res))"
    by (auto simp: engine_simps mini_simps)
  moreover from this(3) defs have "tmpl t ''page'' = Some (Text ''Bye'')"
    by (simp add: final_definition_def mini_def)
  ultimately show ?thesis
    by (auto simp: Template_ExecuteTemplate_def mini_def)
qed

end
